theory Spec2Isabelle
  imports Main "HOL-Library.Sublist"
begin

section \<open>Data model of \<open>src/App.tsx\<close>\<close>

text \<open>
  The three interfaces exported by the application component. A TypeScript \<open>string\<close> is a
  \<open>string\<close> (the model covers ASCII text), an integer-valued \<open>number\<close> is an \<open>int\<close>, and
  an optional field \<open>f?: t\<close> is a \<open>t option\<close> with \<open>None\<close> for an absent field.
  The record field \<open>length\<close> of \<open>PacketInfo\<close> carries a prime, the name being taken by lists.
\<close>

record PacketInfo =
  timestamp :: string
  length' :: int
  protocol :: string
  source :: string
  destination :: string
  source_port :: "int option"
  dest_port :: "int option"
  flags :: "string option"
  sequence :: "int option"
  ttl :: int
  identification :: int

record CaptureStatus =
  success :: bool
  message :: string
  interface_name :: "string option"

record InterfaceInfo =
  name :: string
  description :: "string option"
  mac :: "string option"
  ipv4 :: "string list"

text \<open>
  The value held by \<open>useState({protocol: "", source: "", destination: ""})\<close>. Its fields are
  prefixed, since \<open>protocol\<close>, \<open>source\<close> and \<open>destination\<close> are fields of \<open>PacketInfo\<close> too.
\<close>

record Filters =
  filters_protocol :: string
  filters_source :: string
  filters_destination :: string

text \<open>The six \<open>useState\<close> cells of the component \<open>App\<close>, with their initial values.\<close>

record App =
  interfaces :: "InterfaceInfo list"
  selectedInterface :: string
  isCapturing :: bool
  status :: "CaptureStatus option"
  packets :: "PacketInfo list"
  filters :: Filters

definition initial_filters :: Filters where
  "initial_filters =
     \<lparr>filters_protocol = '''', filters_source = '''', filters_destination = ''''\<rparr>"

definition initial_App :: App where
  "initial_App =
     \<lparr>interfaces = [], selectedInterface = '''', isCapturing = False, status = None,
      packets = [], filters = initial_filters\<rparr>"

section \<open>Event listeners\<close>

text \<open>
  The listener of \<open>packet-captured\<close>:
  \<^verbatim>\<open>setPackets((prev) => [event.payload, ...prev].slice(0, 1000))\<close>.
  \<open>slice(0, 1000)\<close> keeps the elements at the indices below 1000, all of them when the array
  is shorter, which is \<open>take\<close>.
\<close>

definition on_packet_captured :: "PacketInfo \<Rightarrow> App \<Rightarrow> App" where
  "on_packet_captured payload st = st\<lparr>packets := take 1000 (payload # packets st)\<rparr>"

text \<open>
  The listener of \<open>capture-status\<close>: \<open>setStatus(event.payload)\<close>, and
  \<open>setIsCapturing(false)\<close> when the payload's \<open>success\<close> is false.
\<close>

definition on_capture_status :: "CaptureStatus \<Rightarrow> App \<Rightarrow> App" where
  "on_capture_status payload st =
     (let st1 = st\<lparr>status := Some payload\<rparr>
      in if \<not> success payload then st1\<lparr>isCapturing := False\<rparr> else st1)"

text \<open>
  A run of \<open>packet-captured\<close> events, delivered in the order of the list (its head first).
\<close>

fun deliver_packets :: "PacketInfo list \<Rightarrow> App \<Rightarrow> App" where
  "deliver_packets [] st = st"
| "deliver_packets (payload # rest) st = deliver_packets rest (on_packet_captured payload st)"

section \<open>Commands\<close>

text \<open>
  \<open>startCapture\<close> awaits \<open>invoke("start_capture", {interfaceName: selectedInterface || null})\<close>.
  The backend is not part of the component: it is the parameter \<open>start_capture\<close>, which maps
  the argument to the outcome of the promise, \<open>Inr ()\<close> when it resolves and \<open>Inl error\<close> when
  it rejects. \<open>selectedInterface || null\<close> is \<open>null\<close> for the empty string. On a rejection
  the \<open>catch\<close> block only logs to the console, which is not part of the state.
\<close>

definition interfaceName :: "App \<Rightarrow> string option" where
  "interfaceName st =
     (if selectedInterface st \<noteq> [] then Some (selectedInterface st) else None)"

definition startCapture :: "(string option \<Rightarrow> string + unit) \<Rightarrow> App \<Rightarrow> App" where
  "startCapture start_capture st =
     (case start_capture (interfaceName st) of
        Inr _ \<Rightarrow> st\<lparr>isCapturing := True, packets := []\<rparr>
      | Inl error \<Rightarrow> st)"

text \<open>
  \<open>stopCapture\<close> awaits \<open>invoke("stop_capture")\<close>, whose outcome is the parameter
  \<open>stop_capture\<close>.
\<close>

definition stopCapture :: "string + unit \<Rightarrow> App \<Rightarrow> App" where
  "stopCapture stop_capture st =
     (case stop_capture of
        Inr _ \<Rightarrow> st\<lparr>isCapturing := False\<rparr>
      | Inl error \<Rightarrow> st)"

section \<open>The filtered view\<close>

text \<open>
  \<open>String.prototype.toLowerCase\<close> on ASCII text: each of the letters \<open>A\<close> to \<open>Z\<close> moves
  to its lower-case letter, every other character stays.
\<close>

definition toLowerCase_char :: "char \<Rightarrow> char" where
  "toLowerCase_char c =
     (case map_of (zip ''ABCDEFGHIJKLMNOPQRSTUVWXYZ'' ''abcdefghijklmnopqrstuvwxyz'') c of
        Some l \<Rightarrow> l
      | None \<Rightarrow> c)"

definition toLowerCase :: "string \<Rightarrow> string" where
  "toLowerCase s = map toLowerCase_char s"

text \<open>
  \<open>String.prototype.includes\<close> with the default position 0: the search string occurs in the
  receiver at some index, so it is a prefix of the receiver or it occurs further right.
\<close>

fun string_includes :: "string \<Rightarrow> string \<Rightarrow> bool" where
  "string_includes [] searchString = (searchString = [])"
| "string_includes (c # cs) searchString =
     (prefix searchString (c # cs) \<or> string_includes cs searchString)"

text \<open>
  The callback of \<open>packets.filter\<close>. \<open>!filters.protocol\<close> holds for the empty string only.
\<close>

definition packet_matches :: "Filters \<Rightarrow> PacketInfo \<Rightarrow> bool" where
  "packet_matches fs packet =
     ((filters_protocol fs = [] \<or>
         string_includes (toLowerCase (protocol packet)) (toLowerCase (filters_protocol fs))) \<and>
      (filters_source fs = [] \<or> string_includes (source packet) (filters_source fs)) \<and>
      (filters_destination fs = [] \<or>
         string_includes (destination packet) (filters_destination fs)))"

definition filteredPackets :: "App \<Rightarrow> PacketInfo list" where
  "filteredPackets st = filter (packet_matches (filters st)) (packets st)"

section \<open>The cells of a table row\<close>

text \<open>
  The time cell shows \<open>new Date(parseInt(packet.timestamp) * 1000).toLocaleTimeString()\<close>.
  \<open>parseInt\<close> with no radix, as ECMAScript defines it: strip the leading white space, read a
  sign, take radix 16 after a prefix \<open>0x\<close> or \<open>0X\<close> and radix 10 otherwise, and keep the
  longest run of digits of that radix; the result is \<open>NaN\<close> (here \<open>None\<close>) when the run is
  empty. A JavaScript number is an \<open>int\<close> here, which is exact for the integers below \<open>2^53\<close>
  in magnitude.
\<close>

definition is_WhiteSpace :: "char \<Rightarrow> bool" where
  "is_WhiteSpace c \<longleftrightarrow>
     c \<in> set [CHR 0x09, CHR 0x0A, CHR 0x0B, CHR 0x0C, CHR 0x0D, CHR '' '']"

definition digit_value :: "nat \<Rightarrow> char \<Rightarrow> nat option" where
  "digit_value R c =
     (case map_of (zip ''0123456789abcdef'' [0, 1, 2, 3, 4, 5, 6, 7, 8, 9, 10, 11, 12, 13, 14, 15])
             (toLowerCase_char c) of
        Some d \<Rightarrow> if d < R then Some d else None
      | None \<Rightarrow> None)"

definition is_radix_digit :: "nat \<Rightarrow> char \<Rightarrow> bool" where
  "is_radix_digit R c \<longleftrightarrow> digit_value R c \<noteq> None"

definition parseInt :: "string \<Rightarrow> int option" where
  "parseInt string =
     (let S = dropWhile is_WhiteSpace string;
          sign = (if S \<noteq> [] \<and> hd S = CHR ''-'' then - 1 else 1);
          S = (if S \<noteq> [] \<and> (hd S = CHR ''+'' \<or> hd S = CHR ''-'') then tl S else S);
          (R, S) = (if take 2 S = ''0x'' \<or> take 2 S = ''0X'' then (16, drop 2 S) else (10, S));
          Z = takeWhile (is_radix_digit R) S
      in if Z = [] then None
         else Some (sign *
                int (foldl (\<lambda>n c. case digit_value R c of Some d \<Rightarrow> n * R + d | None \<Rightarrow> n) 0 Z)))"

text \<open>
  The argument of \<open>new Date\<close> in the time cell, in milliseconds; \<open>NaN * 1000\<close> is \<open>NaN\<close>.
  How \<open>toLocaleTimeString\<close> prints it depends on the locale and the time zone of the host
  and is left out.
\<close>

definition time_cell_millis :: "PacketInfo \<Rightarrow> int option" where
  "time_cell_millis packet = map_option (\<lambda>seconds. seconds * 1000) (parseInt (timestamp packet))"

text \<open>
  The decimal numeral a template literal prints for an integer.
\<close>

fun string_of_nat :: "nat \<Rightarrow> string" where
  "string_of_nat n =
     (if n < 10 then [''0123456789'' ! n]
      else string_of_nat (n div 10) @ [''0123456789'' ! (n mod 10)])"

declare string_of_nat.simps [simp del]

definition Number_toString :: "int \<Rightarrow> string" where
  "Number_toString n =
     (if n < 0 then CHR ''-'' # string_of_nat (nat (- n)) else string_of_nat (nat n))"

text \<open>
  The source cell is \<open>packet.source\<close> followed by
  \<^verbatim>\<open>packet.source_port ? `:${packet.source_port}` : ""\<close>, the destination cell likewise.
  The condition is the truthiness of the port: false for an absent port and for the number 0.
\<close>

definition source_cell :: "PacketInfo \<Rightarrow> string" where
  "source_cell packet =
     source packet @
       (case source_port packet of
          Some port \<Rightarrow> if port \<noteq> 0 then '':'' @ Number_toString port else ''''
        | None \<Rightarrow> '''')"

definition destination_cell :: "PacketInfo \<Rightarrow> string" where
  "destination_cell packet =
     destination packet @
       (case dest_port packet of
          Some port \<Rightarrow> if port \<noteq> 0 then '':'' @ Number_toString port else ''''
        | None \<Rightarrow> '''')"

section \<open>Readings of the specification\<close>

text \<open>
  The filter as the specification words it, to compare with \<open>packet_matches\<close>. An address
  predicate is empty or occurs in the field as a contiguous substring. The protocol predicate
  is empty or equals, up to the case of its letters, some contiguous substring of the field.

  Equality up to case is stated on the character codes, with no lower-casing: the capital
  letters have the codes 65 to 90, and the small letter of a capital one has its code plus
  32. Two characters are the same letter when they are equal or one is the capital and the
  other the small form of one letter; two strings are equal up to case when they have the same
  length and agree in this sense at every position.
\<close>

definition is_capital_letter :: "char \<Rightarrow> bool" where
  "is_capital_letter c \<longleftrightarrow> 65 \<le> (of_char c :: nat) \<and> (of_char c :: nat) \<le> 90"

definition same_letter_ignoring_case :: "char \<Rightarrow> char \<Rightarrow> bool" where
  "same_letter_ignoring_case c d \<longleftrightarrow>
     c = d \<or>
     (is_capital_letter c \<and> (of_char d :: nat) = of_char c + 32) \<or>
     (is_capital_letter d \<and> (of_char c :: nat) = of_char d + 32)"

definition equal_ignoring_case :: "string \<Rightarrow> string \<Rightarrow> bool" where
  "equal_ignoring_case s t \<longleftrightarrow> list_all2 same_letter_ignoring_case s t"

text \<open>
  ASCII text: every character has a code below 128. On such text \<open>toLowerCase\<close> above is what
  \<open>String.prototype.toLowerCase\<close> computes; letters outside ASCII, which JavaScript lower-cases
  too, are outside the model.
\<close>

definition is_ASCII :: "string \<Rightarrow> bool" where
  "is_ASCII s \<longleftrightarrow> list_all (\<lambda>c. (of_char c :: nat) < 128) s"

definition spec_address_match :: "string \<Rightarrow> string \<Rightarrow> bool" where
  "spec_address_match predicate field \<longleftrightarrow>
     predicate = [] \<or> (\<exists>before after. field = before @ predicate @ after)"

definition spec_protocol_match :: "string \<Rightarrow> string \<Rightarrow> bool" where
  "spec_protocol_match predicate field \<longleftrightarrow>
     predicate = [] \<or>
     (\<exists>before middle after. field = before @ middle @ after \<and> equal_ignoring_case middle predicate)"

definition spec_matches :: "Filters \<Rightarrow> PacketInfo \<Rightarrow> bool" where
  "spec_matches fs packet \<longleftrightarrow>
     spec_protocol_match (filters_protocol fs) (protocol packet) \<and>
     spec_address_match (filters_source fs) (source packet) \<and>
     spec_address_match (filters_destination fs) (destination packet)"

text \<open>The number a run of decimal digits denotes, its last digit the least significant.\<close>

definition is_decimal_digit :: "char \<Rightarrow> bool" where
  "is_decimal_digit c \<longleftrightarrow> c \<in> set ''0123456789''"

fun decimal_value :: "string \<Rightarrow> nat" where
  "decimal_value [] = 0"
| "decimal_value (c # cs) =
     (of_char c - of_char CHR ''0'') * 10 ^ length cs + decimal_value cs"

section \<open>Sample inputs\<close>

text \<open>
  Three packets, captured in the order A, B, C, a later packet D, and a status of each kind.
\<close>

definition packet_A :: PacketInfo where
  "packet_A =
     \<lparr>timestamp = ''1'', length' = 60, protocol = ''TCP'', source = ''192.168.1.7'',
      destination = ''10.0.0.9'', source_port = Some 443, dest_port = Some 80,
      flags = Some ''SYN'', sequence = Some 1, ttl = 64, identification = 1\<rparr>"

definition packet_B :: PacketInfo where
  "packet_B =
     \<lparr>timestamp = ''2'', length' = 72, protocol = ''UDP'', source = ''10.0.0.1'',
      destination = ''192.168.1.7'', source_port = Some 0, dest_port = Some 0,
      flags = None, sequence = None, ttl = 64, identification = 2\<rparr>"

definition packet_C :: PacketInfo where
  "packet_C =
     \<lparr>timestamp = ''1700000000.75'', length' = 84, protocol = ''Tcp'', source = ''192.168.1.8'',
      destination = ''10.0.0.9'', source_port = None, dest_port = None,
      flags = None, sequence = None, ttl = 63, identification = 3\<rparr>"

definition packet_D :: PacketInfo where
  "packet_D =
     \<lparr>timestamp = ''4'', length' = 98, protocol = ''ICMP'', source = ''192.168.1.7'',
      destination = ''10.0.0.1'', source_port = None, dest_port = None,
      flags = None, sequence = None, ttl = 64, identification = 4\<rparr>"

definition status_ok :: CaptureStatus where
  "status_ok = \<lparr>success = True, message = ''Capture started'', interface_name = Some ''eth0''\<rparr>"

definition status_failed :: CaptureStatus where
  "status_failed = \<lparr>success = False, message = ''Device disconnected'', interface_name = None\<rparr>"

text \<open>
  An idle component that still shows three packets of an earlier capture, with and without a
  selected interface and filters, and a capturing component whose packet list is full.
\<close>

definition idle_App :: App where
  "idle_App = initial_App\<lparr>packets := [packet_C, packet_B, packet_A]\<rparr>"

definition idle_eth0_App :: App where
  "idle_eth0_App = idle_App\<lparr>selectedInterface := ''eth0''\<rparr>"

definition source_filter_App :: App where
  "source_filter_App = idle_App\<lparr>filters := initial_filters\<lparr>filters_source := ''10.0.0.1''\<rparr>\<rparr>"

text \<open>
  The component after a fourth packet, with all three filters set, the protocol filter in
  mixed case.
\<close>

definition protocol_filter_App :: App where
  "protocol_filter_App =
     idle_App
       \<lparr>packets := [packet_D, packet_C, packet_B, packet_A],
        filters :=
          \<lparr>filters_protocol = ''iCmp'', filters_source = ''192.168'',
           filters_destination = ''10.0.0''\<rparr>\<rparr>"

definition full_App :: App where
  "full_App = initial_App\<lparr>isCapturing := True, packets := replicate 999 packet_B @ [packet_A]\<rparr>"

text \<open>
  A backend that opens \<open>eth0\<close> only and has no default interface, and one that is capturing
  already.
\<close>

definition eth0_backend :: "string option \<Rightarrow> string + unit" where
  "eth0_backend interface =
     (case interface of
        None \<Rightarrow> Inl ''NoDefaultInterface''
      | Some i \<Rightarrow> if i = ''eth0'' then Inr () else Inl ''InterfaceNotFound'')"

definition busy_backend :: "string option \<Rightarrow> string + unit" where
  "busy_backend interface = Inl ''AlreadyCapturing''"

section \<open>The bounded packet list\<close>

lemma packets_deliver_packets:
  "packets (deliver_packets ps st) =
     (if ps = [] then packets st else take 1000 (rev ps @ packets st))"
proof (induction ps arbitrary: st)
  case Nil
  show ?case by simp
next
  case (Cons p ps)
  show ?case
  proof (cases "ps = []")
    case True
    then show ?thesis by (simp add: on_packet_captured_def)
  next
    case False
    have "take 1000 (rev ps @ take 1000 (p # packets st)) = take 1000 (rev ps @ p # packets st)"
      by (simp add: take_Cons' min_def)
    with False Cons.IH [of "on_packet_captured p st"] show ?thesis
      by (simp add: on_packet_captured_def)
  qed
qed

text \<open>
  Claim C1. Starting from an empty packet list, after any sequence \<open>ps\<close> of \<open>k\<close>
  \<open>packet-captured\<close> events the list holds exactly \<open>min k 1000\<close> records: the most recently
  delivered ones, newest first, the latest at index 0. On a list of 1000 records one more
  event puts its payload in front and drops exactly the last, that is the oldest, record.
\<close>

theorem packet_list_keeps_newest_1000:
  assumes "packets st0 = []"
  shows "packets (deliver_packets ps st0) = rev (drop (length ps - 1000) ps) \<and>
         length (packets (deliver_packets ps st0)) = min (length ps) 1000 \<and>
         (ps \<noteq> [] \<longrightarrow> packets (deliver_packets ps st0) ! 0 = last ps) \<and>
         (length (packets st) = 1000 \<longrightarrow>
            packets (on_packet_captured p st) = p # butlast (packets st))"
proof -
  have kept: "packets (deliver_packets ps st0) = take 1000 (rev ps)"
    using assms by (simp add: packets_deliver_packets)
  have newest: "packets (deliver_packets ps st0) ! 0 = last ps" if "ps \<noteq> []"
  proof -
    from that have "rev ps \<noteq> []" by simp
    then have "take 1000 (rev ps) ! 0 = rev ps ! 0" by simp
    also from that have "\<dots> = last ps" by (simp add: last_conv_nth rev_nth)
    finally show ?thesis by (simp add: kept)
  qed
  have evict: "packets (on_packet_captured p st) = p # butlast (packets st)"
    if "length (packets st) = 1000"
    using that by (simp add: on_packet_captured_def butlast_conv_take)
  from kept newest evict show ?thesis
    by (simp add: take_rev min_def)
qed

text \<open>
  The sample run A, B, C leaves C, B, A; on the full sample list, whose oldest record is A,
  the next event evicts A.
\<close>

theorem packet_list_keeps_newest_1000_witness:
  "packets initial_App = [] \<and>
   packets (deliver_packets [packet_A, packet_B, packet_C] initial_App) =
     [packet_C, packet_B, packet_A] \<and>
   length (packets full_App) = 1000 \<and>
   packets (on_packet_captured packet_C full_App) = packet_C # replicate 999 packet_B"
  using packet_list_keeps_newest_1000
          [of initial_App "[packet_A, packet_B, packet_C]" full_App packet_C]
  by (simp add: initial_App_def full_App_def)

section \<open>Starting and stopping a capture\<close>

text \<open>
  Claim C3. When the \<open>start_capture\<close> invocation succeeds, \<open>startCapture\<close> leaves the packet
  list empty and the flag \<open>isCapturing\<close> true; the other cells keep their values.
\<close>

theorem start_success_clears_and_captures:
  assumes "start_capture (interfaceName st) = Inr ()"
  shows "packets (startCapture start_capture st) = [] \<and>
         isCapturing (startCapture start_capture st) \<and>
         startCapture start_capture st = st\<lparr>isCapturing := True, packets := []\<rparr>"
  using assms by (simp add: startCapture_def)

text \<open>
  The idle sample with \<open>eth0\<close> selected shows three packets; a successful start empties the
  list and sets the flag.
\<close>

theorem start_success_clears_and_captures_witness:
  "eth0_backend (interfaceName idle_eth0_App) = Inr () \<and>
   packets idle_eth0_App = [packet_C, packet_B, packet_A] \<and>
   packets (startCapture eth0_backend idle_eth0_App) = [] \<and>
   isCapturing (startCapture eth0_backend idle_eth0_App)"
  using start_success_clears_and_captures [of eth0_backend idle_eth0_App]
  by (simp add: eth0_backend_def interfaceName_def idle_eth0_App_def idle_App_def initial_App_def)

text \<open>
  Claim C4. When the \<open>start_capture\<close> invocation fails, whatever the error, \<open>startCapture\<close>
  returns the state it was given: the packet list is not cleared and \<open>isCapturing\<close> keeps its
  value.
\<close>

theorem start_failure_changes_nothing:
  assumes "start_capture (interfaceName st) = Inl error"
  shows "startCapture start_capture st = st \<and>
         packets (startCapture start_capture st) = packets st \<and>
         isCapturing (startCapture start_capture st) = isCapturing st"
  using assms by (simp add: startCapture_def)

text \<open>
  With no interface selected and no default interface the start is rejected and the idle
  sample keeps its three packets; a start rejected as \<open>AlreadyCapturing\<close> leaves the capturing
  sample capturing, its list full.
\<close>

theorem start_failure_changes_nothing_witness:
  "eth0_backend (interfaceName idle_App) = Inl ''NoDefaultInterface'' \<and>
   startCapture eth0_backend idle_App = idle_App \<and>
   packets (startCapture eth0_backend idle_App) = [packet_C, packet_B, packet_A] \<and>
   \<not> isCapturing (startCapture eth0_backend idle_App) \<and>
   busy_backend (interfaceName full_App) = Inl ''AlreadyCapturing'' \<and>
   startCapture busy_backend full_App = full_App \<and>
   length (packets (startCapture busy_backend full_App)) = 1000 \<and>
   isCapturing (startCapture busy_backend full_App)"
  using start_failure_changes_nothing [of eth0_backend idle_App "''NoDefaultInterface''"]
    start_failure_changes_nothing [of busy_backend full_App "''AlreadyCapturing''"]
  by (simp add: eth0_backend_def busy_backend_def interfaceName_def idle_App_def full_App_def
        initial_App_def)

text \<open>
  Claim C6. After a successful \<open>stop_capture\<close> invocation \<open>isCapturing\<close> is false and nothing
  else has changed; after a failed one, whatever the error, the state is the one before, so
  neither \<open>isCapturing\<close> nor the packet list has changed.
\<close>

theorem stop_success_idle_failure_unchanged:
  "\<not> isCapturing (stopCapture (Inr ()) st) \<and>
   stopCapture (Inr ()) st = st\<lparr>isCapturing := False\<rparr> \<and>
   stopCapture (Inl error) st = st"
  by (simp add: stopCapture_def)

text \<open>
  A successful stop of the capturing sample clears the flag and keeps the packets; a stop of
  the idle sample rejected as \<open>NotCapturing\<close> changes nothing.
\<close>

theorem stop_success_idle_failure_unchanged_witness:
  "isCapturing full_App \<and>
   \<not> isCapturing (stopCapture (Inr ()) full_App) \<and>
   packets (stopCapture (Inr ()) full_App) = packets full_App \<and>
   stopCapture (Inl ''NotCapturing'') idle_App = idle_App"
  using stop_success_idle_failure_unchanged [of full_App "''NotCapturing''"]
    stop_success_idle_failure_unchanged [of idle_App "''NotCapturing''"]
  by (simp add: full_App_def)

section \<open>Status events\<close>

text \<open>
  Claim C7. Every \<open>capture-status\<close> event stores its payload as the last status, and a payload
  whose \<open>success\<close> is false leaves \<open>isCapturing\<close> false.
\<close>

theorem status_event_recorded_failure_stops:
  "status (on_capture_status payload st) = Some payload \<and>
   (\<not> success payload \<longrightarrow> \<not> isCapturing (on_capture_status payload st))"
  by (simp add: on_capture_status_def Let_def)

text \<open>A failure status received while capturing is stored and ends the capturing state.\<close>

theorem status_event_recorded_failure_stops_witness:
  "\<not> success status_failed \<and> isCapturing full_App \<and>
   status (on_capture_status status_failed full_App) = Some status_failed \<and>
   \<not> isCapturing (on_capture_status status_failed full_App)"
  using status_event_recorded_failure_stops [of status_failed full_App]
  by (simp add: status_failed_def full_App_def)

text \<open>
  Claim C9. A \<open>capture-status\<close> event whose \<open>success\<close> is true changes the last status only:
  \<open>isCapturing\<close> and the packet list keep their values, so a success status received while
  not capturing does not set \<open>isCapturing\<close>.
\<close>

theorem success_status_changes_status_only:
  assumes "success payload"
  shows "on_capture_status payload st = st\<lparr>status := Some payload\<rparr> \<and>
         isCapturing (on_capture_status payload st) = isCapturing st \<and>
         packets (on_capture_status payload st) = packets st"
  using assms by (simp add: on_capture_status_def Let_def)

text \<open>A success status received by the idle sample leaves it idle, its packets in place.\<close>

theorem success_status_changes_status_only_witness:
  "success status_ok \<and> \<not> isCapturing idle_App \<and>
   on_capture_status status_ok idle_App = idle_App\<lparr>status := Some status_ok\<rparr> \<and>
   \<not> isCapturing (on_capture_status status_ok idle_App) \<and>
   packets (on_capture_status status_ok idle_App) = [packet_C, packet_B, packet_A]"
  using success_status_changes_status_only [of status_ok idle_App]
  by (simp add: status_ok_def idle_App_def initial_App_def)

section \<open>The filter\<close>

text \<open>\<open>includes\<close> is the occurrence of the search string as a contiguous substring.\<close>

lemma string_includes_iff:
  "string_includes s t \<longleftrightarrow> (\<exists>before after. s = before @ t @ after)"
proof -
  have "string_includes s t = sublist t s"
    by (induction s) (auto simp: sublist_Cons_right)
  then show ?thesis by (simp add: sublist_def)
qed

lemma toLowerCase_append: "toLowerCase (s @ t) = toLowerCase s @ toLowerCase t"
  by (simp add: toLowerCase_def)

text \<open>
  The table of \<open>toLowerCase_char\<close> against the character codes: its capital letters are the
  characters with the codes 65 to 90, and it adds 32 to the code of each of them.
\<close>

lemma capital_letter_codes:
  "map (of_char :: char \<Rightarrow> nat) ''ABCDEFGHIJKLMNOPQRSTUVWXYZ'' = [65..<91]"
  by code_simp

lemma capital_letter_iff:
  "is_capital_letter c \<longleftrightarrow> c \<in> set ''ABCDEFGHIJKLMNOPQRSTUVWXYZ''"
proof -
  have "is_capital_letter c \<longleftrightarrow> (of_char c :: nat) \<in> set [65..<91]"
    unfolding is_capital_letter_def set_upt atLeastLessThan_iff by arith
  also have "\<dots> \<longleftrightarrow> (of_char c :: nat) \<in> of_char ` set ''ABCDEFGHIJKLMNOPQRSTUVWXYZ''"
    unfolding capital_letter_codes [symmetric] by (simp only: set_map)
  also have "\<dots> \<longleftrightarrow> c \<in> set ''ABCDEFGHIJKLMNOPQRSTUVWXYZ''"
    by (rule inj_image_mem_iff) (simp add: inj_on_def)
  finally show ?thesis .
qed

lemma toLowerCase_char_code:
  "(of_char (toLowerCase_char c) :: nat) =
     (if is_capital_letter c then of_char c + 32 else of_char c)"
proof (cases "is_capital_letter c")
  case True
  then have "c \<in> set ''ABCDEFGHIJKLMNOPQRSTUVWXYZ''"
    by (simp only: capital_letter_iff)
  then have "(of_char (toLowerCase_char c) :: nat) = of_char c + 32"
    by (auto simp: toLowerCase_char_def)
  with True show ?thesis by simp
next
  case False
  then have "c \<notin> set ''ABCDEFGHIJKLMNOPQRSTUVWXYZ''"
    by (simp only: capital_letter_iff not_False_eq_True)
  then have "toLowerCase_char c = c"
    by (simp add: toLowerCase_char_def)
  with False show ?thesis by simp
qed

text \<open>
  Two characters have the same lower-case form exactly when they are the same letter, and two
  strings exactly when they are equal up to case.
\<close>

lemma toLowerCase_char_eq_iff:
  "toLowerCase_char c = toLowerCase_char d \<longleftrightarrow> same_letter_ignoring_case c d"
proof -
  have "toLowerCase_char c = toLowerCase_char d \<longleftrightarrow>
      (of_char (toLowerCase_char c) :: nat) = of_char (toLowerCase_char d)"
    by simp
  also have "\<dots> \<longleftrightarrow> same_letter_ignoring_case c d"
    unfolding toLowerCase_char_code same_letter_ignoring_case_def
    by (auto simp: is_capital_letter_def)
  finally show ?thesis .
qed

lemma equal_ignoring_case_iff:
  "equal_ignoring_case s t \<longleftrightarrow> toLowerCase s = toLowerCase t"
  unfolding equal_ignoring_case_def toLowerCase_def
proof (induction s arbitrary: t)
  case Nil
  show ?case by auto
next
  case (Cons c s)
  then show ?case by (cases t) (simp_all add: toLowerCase_char_eq_iff)
qed

text \<open>
  Lower-casing both strings before \<open>includes\<close> finds exactly the substrings that equal the
  search string up to case: \<open>toLowerCase\<close> works character by character, so a split of the
  lower-cased field is the image of a split of the field.
\<close>

lemma string_includes_toLowerCase_iff:
  "string_includes (toLowerCase s) (toLowerCase t) \<longleftrightarrow>
     (\<exists>before middle after. s = before @ middle @ after \<and> equal_ignoring_case middle t)"
proof
  assume "string_includes (toLowerCase s) (toLowerCase t)"
  then obtain b a where "toLowerCase s = b @ toLowerCase t @ a"
    by (auto simp: string_includes_iff)
  then have "map toLowerCase_char s = b @ (map toLowerCase_char t @ a)"
    by (simp add: toLowerCase_def)
  then obtain before rest where s: "s = before @ rest"
    and rest: "map toLowerCase_char rest = map toLowerCase_char t @ a"
    unfolding map_eq_append_conv [of toLowerCase_char s] by metis
  from rest obtain middle after where "rest = middle @ after"
    and "map toLowerCase_char middle = map toLowerCase_char t"
    unfolding map_eq_append_conv [of toLowerCase_char rest] by metis
  with s have "s = before @ middle @ after \<and> equal_ignoring_case middle t"
    by (simp add: equal_ignoring_case_iff toLowerCase_def)
  then show "\<exists>before middle after. s = before @ middle @ after \<and> equal_ignoring_case middle t"
    by blast
next
  assume "\<exists>before middle after. s = before @ middle @ after \<and> equal_ignoring_case middle t"
  then obtain before middle after where "s = before @ middle @ after"
    and "toLowerCase middle = toLowerCase t"
    by (auto simp: equal_ignoring_case_iff)
  then have "toLowerCase s = toLowerCase before @ toLowerCase t @ toLowerCase after"
    by (simp add: toLowerCase_append)
  then show "string_includes (toLowerCase s) (toLowerCase t)"
    unfolding string_includes_iff by blast
qed

lemma packet_matches_spec: "packet_matches fs packet = spec_matches fs packet"
  unfolding packet_matches_def spec_matches_def spec_protocol_match_def spec_address_match_def
  by (simp only: string_includes_toLowerCase_iff) (simp only: string_includes_iff)

text \<open>
  Claim C2. For every packet list and every filter whose protocol strings are ASCII text, the
  filtered list is the packet list restricted to the records that match all three predicates
  as the specification reads them (an empty predicate matches every record, the protocol
  predicate is a substring test up to case, the address predicates are exact substring
  tests): a record is in the result iff it is in the list and matches, and the result keeps
  the order of the list. The filtered list is a value computed from the state, which it
  leaves as it is.
\<close>

theorem filteredPackets_matches_all_predicates:
  assumes "list_all (\<lambda>packet. is_ASCII (protocol packet)) (packets st)"
    and "is_ASCII (filters_protocol (filters st))"
  shows "filteredPackets st = filter (spec_matches (filters st)) (packets st) \<and>
         (\<forall>packet. packet \<in> set (filteredPackets st) \<longleftrightarrow>
            packet \<in> set (packets st) \<and> spec_matches (filters st) packet) \<and>
         subseq (filteredPackets st) (packets st)"
proof -
  have "packet_matches (filters st) = spec_matches (filters st)"
    by (rule ext) (rule packet_matches_spec)
  then show ?thesis by (simp add: filteredPackets_def)
qed

text \<open>
  With the protocol filter \<open>iCmp\<close>, the source filter \<open>192.168\<close> and the destination filter
  \<open>10.0.0\<close> the list D, C, B, A is filtered to D, whose protocol \<open>ICMP\<close> equals the filter up
  to case; with the source filter \<open>10.0.0.1\<close> alone the list C, B, A is filtered to B.
\<close>

theorem filteredPackets_matches_all_predicates_witness:
  "list_all (\<lambda>packet. is_ASCII (protocol packet)) (packets protocol_filter_App) \<and>
   is_ASCII (filters_protocol (filters protocol_filter_App)) \<and>
   packets protocol_filter_App = [packet_D, packet_C, packet_B, packet_A] \<and>
   filteredPackets protocol_filter_App = [packet_D] \<and>
   filter (spec_matches (filters protocol_filter_App)) (packets protocol_filter_App) =
     [packet_D] \<and>
   equal_ignoring_case (protocol packet_D) (filters_protocol (filters protocol_filter_App)) \<and>
   \<not> equal_ignoring_case (protocol packet_A) (filters_protocol (filters protocol_filter_App)) \<and>
   subseq [packet_D] (packets protocol_filter_App) \<and>
   list_all (\<lambda>packet. is_ASCII (protocol packet)) (packets source_filter_App) \<and>
   is_ASCII (filters_protocol (filters source_filter_App)) \<and>
   packets source_filter_App = [packet_C, packet_B, packet_A] \<and>
   filteredPackets source_filter_App = [packet_B] \<and>
   filter (spec_matches (filters source_filter_App)) (packets source_filter_App) = [packet_B] \<and>
   subseq [packet_B] (packets source_filter_App)"
proof -
  have ascii_packets: "list_all (\<lambda>packet. is_ASCII (protocol packet)) (packets protocol_filter_App)"
    by (simp add: protocol_filter_App_def is_ASCII_def packet_A_def packet_B_def packet_C_def
          packet_D_def)
  have ascii_filter: "is_ASCII (filters_protocol (filters protocol_filter_App))"
    by (simp add: protocol_filter_App_def is_ASCII_def)
  have ascii_packets': "list_all (\<lambda>packet. is_ASCII (protocol packet)) (packets source_filter_App)"
    by (simp add: source_filter_App_def idle_App_def is_ASCII_def packet_A_def packet_B_def
          packet_C_def)
  have ascii_filter': "is_ASCII (filters_protocol (filters source_filter_App))"
    by (simp add: source_filter_App_def initial_filters_def is_ASCII_def)
  have listed: "packets protocol_filter_App = [packet_D, packet_C, packet_B, packet_A]"
    by (simp add: protocol_filter_App_def)
  have listed': "packets source_filter_App = [packet_C, packet_B, packet_A]"
    by (simp add: source_filter_App_def idle_App_def)
  have shown: "filteredPackets protocol_filter_App = [packet_D]"
    by (simp add: filteredPackets_def packet_matches_def protocol_filter_App_def
          toLowerCase_def toLowerCase_char_def packet_A_def packet_B_def packet_C_def
          packet_D_def)
  have shown': "filteredPackets source_filter_App = [packet_B]"
    by (simp add: filteredPackets_def packet_matches_def source_filter_App_def idle_App_def
          initial_App_def initial_filters_def packet_A_def packet_B_def packet_C_def)
  have same: "equal_ignoring_case (protocol packet_D)
      (filters_protocol (filters protocol_filter_App))"
    by (simp add: equal_ignoring_case_def same_letter_ignoring_case_def is_capital_letter_def
          protocol_filter_App_def packet_D_def)
  have other: "\<not> equal_ignoring_case (protocol packet_A)
      (filters_protocol (filters protocol_filter_App))"
    by (simp add: equal_ignoring_case_def same_letter_ignoring_case_def is_capital_letter_def
          protocol_filter_App_def packet_A_def)
  note read = filteredPackets_matches_all_predicates [OF ascii_packets ascii_filter]
  note read' = filteredPackets_matches_all_predicates [OF ascii_packets' ascii_filter']
  have spec: "filter (spec_matches (filters protocol_filter_App)) (packets protocol_filter_App) =
      [packet_D]"
    by (simp only: read [THEN conjunct1, symmetric] shown)
  have spec': "filter (spec_matches (filters source_filter_App)) (packets source_filter_App) =
      [packet_B]"
    by (simp only: read' [THEN conjunct1, symmetric] shown')
  have kept: "subseq [packet_D] (packets protocol_filter_App)"
    using read [THEN conjunct2, THEN conjunct2] by (simp only: shown)
  have kept': "subseq [packet_B] (packets source_filter_App)"
    using read' [THEN conjunct2, THEN conjunct2] by (simp only: shown')
  from ascii_packets ascii_filter listed shown spec same other kept
    ascii_packets' ascii_filter' listed' shown' spec' kept'
  show ?thesis by (intro conjI)
qed

text \<open>
  Claim C5. With all three predicates empty the filtered list is the packet list itself;
  with the protocol predicate \<open>tcp\<close> and the other two empty it consists of exactly the
  records whose lower-cased protocol contains \<open>tcp\<close>.
\<close>

theorem empty_filter_identity_tcp_filter:
  "filteredPackets (st\<lparr>filters := initial_filters\<rparr>) = packets st \<and>
   filteredPackets (st\<lparr>filters := initial_filters\<lparr>filters_protocol := ''tcp''\<rparr>\<rparr>) =
     filter (\<lambda>packet. \<exists>before after. toLowerCase (protocol packet) = before @ ''tcp'' @ after)
       (packets st)"
proof -
  have lower: "toLowerCase ''tcp'' = ''tcp''"
    by (simp add: toLowerCase_def toLowerCase_char_def)
  have all: "packet_matches initial_filters = (\<lambda>packet. True)"
    by (rule ext) (simp add: packet_matches_def initial_filters_def)
  have tcp: "packet_matches (initial_filters\<lparr>filters_protocol := ''tcp''\<rparr>) =
      (\<lambda>packet. \<exists>before after. toLowerCase (protocol packet) = before @ ''tcp'' @ after)"
    by (rule ext) (simp add: packet_matches_def initial_filters_def lower string_includes_iff)
  show ?thesis
    by (simp add: filteredPackets_def all tcp)
qed

text \<open>
  Of the packets C, B, A, whose protocols are \<open>Tcp\<close>, \<open>UDP\<close> and \<open>TCP\<close>, the empty filter
  shows all three and the protocol filter \<open>tcp\<close> shows C and A.
\<close>

theorem empty_filter_identity_tcp_filter_witness:
  "filteredPackets (idle_App\<lparr>filters := initial_filters\<rparr>) = [packet_C, packet_B, packet_A] \<and>
   filteredPackets (idle_App\<lparr>filters := initial_filters\<lparr>filters_protocol := ''tcp''\<rparr>\<rparr>) =
     [packet_C, packet_A] \<and>
   toLowerCase (protocol packet_C) = ''tcp'' \<and> toLowerCase (protocol packet_A) = ''tcp'' \<and>
   toLowerCase (protocol packet_B) = ''udp''"
proof -
  have tcp: "filteredPackets (idle_App\<lparr>filters := initial_filters\<lparr>filters_protocol := ''tcp''\<rparr>\<rparr>) =
      [packet_C, packet_A]"
    by (simp add: filteredPackets_def packet_matches_def idle_App_def
          initial_App_def initial_filters_def packet_A_def packet_B_def packet_C_def
          toLowerCase_def toLowerCase_char_def)
  have lower: "toLowerCase (protocol packet_C) = ''tcp'' \<and>
      toLowerCase (protocol packet_A) = ''tcp'' \<and> toLowerCase (protocol packet_B) = ''udp''"
    by (simp add: packet_A_def packet_B_def packet_C_def toLowerCase_def toLowerCase_char_def)
  from empty_filter_identity_tcp_filter [of idle_App] tcp lower show ?thesis
    by (simp add: idle_App_def)
qed

section \<open>The time cell\<close>

lemma decimal_digit_cases:
  "is_decimal_digit c \<longleftrightarrow>
     c = CHR ''0'' \<or> c = CHR ''1'' \<or> c = CHR ''2'' \<or> c = CHR ''3'' \<or> c = CHR ''4'' \<or>
     c = CHR ''5'' \<or> c = CHR ''6'' \<or> c = CHR ''7'' \<or> c = CHR ''8'' \<or> c = CHR ''9''"
  by (auto simp: is_decimal_digit_def)

lemma digit_value_decimal:
  "is_decimal_digit c \<Longrightarrow> digit_value 10 c = Some (of_char c - of_char CHR ''0'')"
  unfolding decimal_digit_cases
  by (elim disjE) (simp_all add: digit_value_def toLowerCase_char_def)

lemma decimal_digit_plain:
  "is_decimal_digit c \<Longrightarrow>
     \<not> is_WhiteSpace c \<and> c \<noteq> CHR ''-'' \<and> c \<noteq> CHR ''+'' \<and> c \<noteq> CHR ''x'' \<and> c \<noteq> CHR ''X''"
  unfolding decimal_digit_cases
  by (elim disjE) (simp_all add: is_WhiteSpace_def)

lemma digit_value_point: "digit_value 10 CHR ''.'' = None"
  by (simp add: digit_value_def toLowerCase_char_def)

text \<open>The loop over the digits computes the number they denote.\<close>

lemma foldl_decimal_value:
  "list_all is_decimal_digit ds \<Longrightarrow>
     foldl (\<lambda>n c. case digit_value 10 c of Some d \<Rightarrow> n * 10 + d | None \<Rightarrow> n) m ds =
       m * 10 ^ length ds + decimal_value ds"
  by (induction ds arbitrary: m) (simp_all add: digit_value_decimal algebra_simps)

lemma takeWhile_decimal_digits:
  "list_all is_decimal_digit ds \<Longrightarrow>
     takeWhile (is_radix_digit 10) (ds @ CHR ''.'' # frac) = ds"
  by (induction ds) (simp_all add: is_radix_digit_def digit_value_decimal digit_value_point)

lemma takeWhile_decimal_digits_only:
  "list_all is_decimal_digit ds \<Longrightarrow> takeWhile (is_radix_digit 10) ds = ds"
  by (induction ds) (simp_all add: is_radix_digit_def digit_value_decimal)

text \<open>
  A run of decimal digits has no white space or sign to strip and no hexadecimal prefix, its
  second character being a digit or the decimal point; \<open>parseInt\<close> stops at the point.
\<close>

lemma parseInt_decimal_point:
  assumes "ds \<noteq> []" and "list_all is_decimal_digit ds"
  shows "parseInt (ds @ CHR ''.'' # frac) = Some (int (decimal_value ds))"
proof -
  from assms obtain d ds' where ds: "ds = d # ds'" and d: "is_decimal_digit d"
    and ds': "list_all is_decimal_digit ds'"
    by (cases ds) auto
  have no_prefix:
    "take 2 (ds @ CHR ''.'' # frac) \<noteq> ''0x'' \<and> take 2 (ds @ CHR ''.'' # frac) \<noteq> ''0X''"
  proof (cases ds')
    case Nil
    with ds show ?thesis by simp
  next
    case (Cons e es)
    with ds' have "is_decimal_digit e" by simp
    with ds Cons show ?thesis by (auto dest: decimal_digit_plain)
  qed
  have ws: "dropWhile is_WhiteSpace (ds @ CHR ''.'' # frac) = ds @ CHR ''.'' # frac"
    using ds d by (simp add: decimal_digit_plain)
  have sign: "hd (ds @ CHR ''.'' # frac) \<noteq> CHR ''-'' \<and> hd (ds @ CHR ''.'' # frac) \<noteq> CHR ''+''"
    using ds d by (simp add: decimal_digit_plain)
  show ?thesis
    using assms no_prefix sign
    by (simp add: parseInt_def ws takeWhile_decimal_digits foldl_decimal_value Let_def
          del: take_append)
qed

lemma parseInt_decimal:
  assumes "ds \<noteq> []" and "list_all is_decimal_digit ds"
  shows "parseInt ds = Some (int (decimal_value ds))"
proof -
  from assms obtain d ds' where ds: "ds = d # ds'" and d: "is_decimal_digit d"
    and ds': "list_all is_decimal_digit ds'"
    by (cases ds) auto
  have no_prefix: "take 2 ds \<noteq> ''0x'' \<and> take 2 ds \<noteq> ''0X''"
  proof (cases ds')
    case Nil
    with ds show ?thesis by simp
  next
    case (Cons e es)
    with ds' have "is_decimal_digit e" by simp
    with ds Cons show ?thesis by (auto dest: decimal_digit_plain)
  qed
  have ws: "dropWhile is_WhiteSpace ds = ds"
    using ds d by (simp add: decimal_digit_plain)
  have sign: "hd ds \<noteq> CHR ''-'' \<and> hd ds \<noteq> CHR ''+''"
    using ds d by (simp add: decimal_digit_plain)
  show ?thesis
    using assms no_prefix sign
    by (simp add: parseInt_def ws takeWhile_decimal_digits_only foldl_decimal_value Let_def)
qed

text \<open>
  Claim C8. The time cell is computed from the timestamp parsed as an integer number of
  seconds, times 1000: for a timestamp that is a run of decimal digits followed by a decimal
  point and any fraction, the value is that of the timestamp without the point and the
  fraction, and (the number being small enough to be exact) it is 1000 times the number the
  digits denote. The sub-second part of the string has no effect on the cell.
\<close>

theorem time_cell_discards_fraction:
  assumes "seconds \<noteq> []" and "list_all is_decimal_digit seconds"
  shows "time_cell_millis (packet\<lparr>timestamp := seconds @ CHR ''.'' # fraction\<rparr>) =
           time_cell_millis (packet\<lparr>timestamp := seconds\<rparr>) \<and>
         (int (decimal_value seconds) * 1000 < 2 ^ 53 \<longrightarrow>
            time_cell_millis (packet\<lparr>timestamp := seconds @ CHR ''.'' # fraction\<rparr>) =
              Some (int (decimal_value seconds) * 1000))"
  using assms by (simp add: time_cell_millis_def parseInt_decimal_point parseInt_decimal)

text \<open>
  Packet C, stamped \<open>1700000000.75\<close>, gets the time 1700000000000 ms, as it would when
  stamped \<open>1700000000\<close>.
\<close>

theorem time_cell_discards_fraction_witness:
  "''1700000000'' \<noteq> [] \<and> list_all is_decimal_digit ''1700000000'' \<and>
   timestamp packet_C = ''1700000000'' @ CHR ''.'' # ''75'' \<and>
   int (decimal_value ''1700000000'') * 1000 < 2 ^ 53 \<and>
   time_cell_millis packet_C = Some 1700000000000 \<and>
   time_cell_millis (packet_C\<lparr>timestamp := ''1700000000''\<rparr>) = Some 1700000000000"
proof -
  have stamp: "packet_C\<lparr>timestamp := ''1700000000'' @ CHR ''.'' # ''75''\<rparr> = packet_C"
    by (simp add: packet_C_def)
  have digits: "list_all is_decimal_digit ''1700000000''"
    by (simp add: is_decimal_digit_def)
  have denoted: "decimal_value ''1700000000'' = 1700000000"
    by simp
  from time_cell_discards_fraction
         [where seconds = "''1700000000''" and packet = packet_C and fraction = "''75''"]
       stamp digits denoted
  show ?thesis by (auto simp: packet_C_def)
qed

section \<open>The address cells\<close>

text \<open>
  Claim C10. For a record whose source port is 0 the source cell is the source address with
  no port suffix, the same text as for the record with the port absent; likewise for the
  destination port and the destination cell.
\<close>

theorem zero_port_renders_as_absent:
  "(source_port packet = Some 0 \<longrightarrow>
      source_cell packet = source packet \<and>
      source_cell packet = source_cell (packet\<lparr>source_port := None\<rparr>)) \<and>
   (dest_port packet = Some 0 \<longrightarrow>
      destination_cell packet = destination packet \<and>
      destination_cell packet = destination_cell (packet\<lparr>dest_port := None\<rparr>))"
  by (simp add: source_cell_def destination_cell_def)

text \<open>Packet B has both ports 0: its cells show the bare addresses.\<close>

theorem zero_port_renders_as_absent_witness:
  "source_port packet_B = Some 0 \<and> dest_port packet_B = Some 0 \<and>
   source_cell packet_B = ''10.0.0.1'' \<and>
   source_cell (packet_B\<lparr>source_port := None\<rparr>) = ''10.0.0.1'' \<and>
   destination_cell packet_B = ''192.168.1.7'' \<and>
   destination_cell (packet_B\<lparr>dest_port := None\<rparr>) = ''192.168.1.7''"
  using zero_port_renders_as_absent [of packet_B]
  by (simp add: packet_B_def source_cell_def destination_cell_def)

text \<open>A port other than 0 is shown: packet A has the ports 443 and 80.\<close>

lemma port_cells_of_packet_A:
  "source_cell packet_A = ''192.168.1.7:443'' \<and> destination_cell packet_A = ''10.0.0.9:80''"
  by (simp add: source_cell_def destination_cell_def packet_A_def Number_toString_def
        string_of_nat.simps)

end
